theory Spec2Isabelle
  imports Main "HOL-Library.Sublist"
begin

section \<open>JavaScript strings\<close>

text \<open>
  A JavaScript string is a sequence of UTF-16 code units. A code unit is modelled as a
  natural number (the code units are the numbers below 65536) and a string as the list
  of its code units. \<open>lit\<close> turns a literal of the source into such a list.
\<close>

type_synonym jstring = "nat list"

definition lit :: "string \<Rightarrow> jstring" where
  "lit s = map of_char s"

text \<open>The class \<^verbatim>\<open>\w\<close> (no \<^verbatim>\<open>u\<close> or \<^verbatim>\<open>i\<close> flag): letters, digits, underscore.\<close>

definition is_word :: "nat \<Rightarrow> bool" where
  "is_word c =
     (c \<in> set (lit ''ABCDEFGHIJKLMNOPQRSTUVWXYZabcdefghijklmnopqrstuvwxyz0123456789_''))"

text \<open>
  The class \<^verbatim>\<open>\s\<close>, which is also what \<^verbatim>\<open>trim\<close> removes: the white space and
  line terminator code points of ECMAScript. They are tab, line feed, vertical tab,
  form feed, carriage return, space, no-break space, U+1680, U+2000 to U+200A, the
  line and paragraph separators U+2028 and U+2029, U+202F, U+205F, U+3000 and the
  byte order mark U+FEFF.
\<close>

definition is_space :: "nat \<Rightarrow> bool" where
  "is_space c =
     (c \<in> set [0x0009, 0x000A, 0x000B, 0x000C, 0x000D, 0x0020, 0x00A0, 0x1680,
               0x2000, 0x2001, 0x2002, 0x2003, 0x2004, 0x2005, 0x2006, 0x2007,
               0x2008, 0x2009, 0x200A, 0x2028, 0x2029, 0x202F, 0x205F, 0x3000,
               0xFEFF])"

definition trim :: "jstring \<Rightarrow> jstring" where
  "trim s = rev (dropWhile is_space (rev (dropWhile is_space s)))"

text \<open>
  \<^verbatim>\<open>String.prototype.toLowerCase\<close> maps a string by the case mapping tables of the
  Unicode standard (with its context rules), which are no part of the repository. It
  is a parameter \<open>lc\<close> of every function that calls it. \<open>lower_casing lc\<close> states
  the two facts about it that the proofs use: its result holds none of the capitals
  A to Z, and on a string of ASCII code units it moves the capitals A to Z up by 32
  and leaves every other code unit as it is.
\<close>

definition is_upper :: "nat \<Rightarrow> bool" where
  "is_upper c = (c \<in> set (lit ''ABCDEFGHIJKLMNOPQRSTUVWXYZ''))"

definition ascii_lower :: "nat \<Rightarrow> nat" where
  "ascii_lower c = (if is_upper c then c + 32 else c)"

definition lower_casing :: "(jstring \<Rightarrow> jstring) \<Rightarrow> bool" where
  "lower_casing lc =
     ((\<forall>s. \<forall>c \<in> set (lc s). \<not> is_upper c) \<and>
      (\<forall>s. (\<forall>c \<in> set s. c < 128) \<longrightarrow> lc s = map ascii_lower s))"

section \<open>Slugifier\<close>

text \<open>
  \<^verbatim>\<open>
  private slugify(text: string): string {
    const slug = text.toLowerCase().trim();
    return slug
      .replace(/[^\w\s-]/g, "")
      .replace(/[\s_-]+/g, "-")
      .replace(/^-+|-+$/g, "");
  }
  \<close>
\<close>

text \<open>\<^verbatim>\<open>.replace(/[^\w\s-]/g, "")\<close>: every code unit outside the class is deleted.\<close>

definition is_kept :: "nat \<Rightarrow> bool" where
  "is_kept c = (is_word c \<or> is_space c \<or> c = of_char CHR ''-'')"

definition remove_other :: "jstring \<Rightarrow> jstring" where
  "remove_other s = filter is_kept s"

text \<open>
  \<^verbatim>\<open>.replace(/[\s_-]+/g, "-")\<close>: scanning from the left, each maximal run of
  whitespace, underscores and hyphens is replaced by one hyphen.
\<close>

definition is_sep :: "nat \<Rightarrow> bool" where
  "is_sep c = (is_space c \<or> c = of_char CHR ''_'' \<or> c = of_char CHR ''-'')"

function collapse_runs :: "jstring \<Rightarrow> jstring" where
  "collapse_runs [] = []"
| "collapse_runs (c # cs) =
     (if is_sep c then of_char CHR ''-'' # collapse_runs (dropWhile is_sep cs)
      else c # collapse_runs cs)"
  by pat_completeness auto
termination
  by (relation "measure length") (auto simp: le_imp_less_Suc length_dropWhile_le)

text \<open>
  \<^verbatim>\<open>.replace(/^-+|-+$/g, "")\<close>: the run of hyphens at the start and the run of
  hyphens at the end are deleted.
\<close>

definition is_hyphen :: "nat \<Rightarrow> bool" where
  "is_hyphen c = (c = of_char CHR ''-'')"

definition strip_hyphens :: "jstring \<Rightarrow> jstring" where
  "strip_hyphens s = rev (dropWhile is_hyphen (rev (dropWhile is_hyphen s)))"

definition slugify :: "(jstring \<Rightarrow> jstring) \<Rightarrow> jstring \<Rightarrow> jstring" where
  "slugify lc text =
     (let slug = trim (lc text)
      in strip_hyphens (collapse_runs (remove_other slug)))"

section \<open>Data model\<close>

text \<open>
  The pages and blocks are JSON values of the shapes the interfaces of the source
  declare. A field that the code reads behind a guard (\<^verbatim>\<open>x || d\<close>, \<^verbatim>\<open>x?.f\<close>,
  \<^verbatim>\<open>x && x.f\<close>) is optional: \<open>None\<close> stands for a field that is missing,
  \<^verbatim>\<open>undefined\<close> or \<^verbatim>\<open>null\<close>. A flag that is absent is falsy, hence \<open>False\<close>.
\<close>

text \<open>
  \<^verbatim>\<open>x || d\<close> on a string that may be absent: the empty string is falsy as well.
\<close>

definition str_or :: "jstring option \<Rightarrow> jstring \<Rightarrow> jstring" where
  "str_or x d = (case x of None \<Rightarrow> d | Some s \<Rightarrow> if s = [] then d else s)"

text \<open>\<^verbatim>\<open>xs || []\<close> on an array that may be absent: every array is truthy.\<close>

definition list_or_empty :: "'a list option \<Rightarrow> 'a list" where
  "list_or_empty x = (case x of None \<Rightarrow> [] | Some xs \<Rightarrow> xs)"

record Annotations =
  bold :: bool
  italic :: bool
  strikethrough :: bool
  underline :: bool
  code :: bool
  color :: jstring

record RichText =
  plain_text :: "jstring option"
  annotations :: "Annotations option"

text \<open>The empty object \<^verbatim>\<open>{}\<close> read as annotations: every flag is falsy.\<close>

definition no_annotations :: Annotations where
  "no_annotations =
     \<lparr>bold = False, italic = False, strikethrough = False, underline = False,
      code = False, color = []\<rparr>"

record Media =
  url :: "jstring option"

record Icon =
  emoji :: "jstring option"

text \<open>
  The payload of a block, \<^verbatim>\<open>block[block.type]\<close>: the fields that
  \<^verbatim>\<open>processBlocks\<close> reads from it (\<open>file_ref\<close> and \<open>external_ref\<close> are the
  fields \<^verbatim>\<open>file\<close> and \<^verbatim>\<open>external\<close>).
\<close>

record BlockData =
  rich_text :: "RichText list option"
  checked :: "bool option"
  language :: "jstring option"
  caption :: "RichText list option"
  file_ref :: "Media option"
  external_ref :: "Media option"
  icon :: "Icon option"

definition empty_data :: BlockData where
  "empty_data =
     \<lparr>rich_text = None, checked = None, language = None, caption = None,
      file_ref = None, external_ref = None, icon = None\<rparr>"

record Block =
  block_id :: jstring
  block_type :: jstring
  payload :: "BlockData option"

record SelectOption =
  name :: "jstring option"

record DateValue =
  start :: "jstring option"

text \<open>
  An entry of the property bag: its declared \<^verbatim>\<open>type\<close> and the payload fields the
  extractors read.
\<close>

record Property =
  prop_type :: jstring
  title :: "RichText list option"
  select :: "SelectOption option"
  multi_select :: "SelectOption list option"
  date :: "DateValue option"

text \<open>
  The property bag is the list of its entries in the order of
  \<^verbatim>\<open>Object.entries\<close>; the keys of an object are pairwise distinct.
\<close>

record Page =
  page_id :: jstring
  created_time :: "jstring option"
  last_edited_time :: "jstring option"
  page_url :: "jstring option"
  properties :: "(jstring \<times> Property) list option"

text \<open>
  \<^verbatim>\<open>PageMetadata\<close> is one object: the three fixed fields and the fields written
  under computed keys live in the same key space, its own fields. A value is a string
  or a list of strings. The object also has a prototype: \<open>None\<close> stands for
  \<^verbatim>\<open>Object.prototype\<close>, which the object literal gives it, and \<open>Some xs\<close> for the
  array \<open>xs\<close>.
\<close>

datatype MetaValue = Str jstring | StrList "jstring list"

record PageMetadata =
  own_fields :: "jstring \<rightharpoonup> MetaValue"
  prototype :: "jstring list option"

section \<open>RichTextRenderer\<close>

text \<open>
  \<^verbatim>\<open>
  let content = text.plain_text || "";
  const annotations = text.annotations || {};
  if (annotations.bold) { content = `**${content}**`; }
  if (annotations.italic) { content = `*${content}*`; }
  if (annotations.strikethrough) { content = `~~${content}~~`; }
  if (annotations.code) { content = `\`${content}\``; }
  parts.push(content);
  \<close>
\<close>

definition style_span :: "RichText \<Rightarrow> jstring" where
  "style_span text =
     (let content = str_or (plain_text text) [];
          annotations = (case annotations text of None \<Rightarrow> no_annotations | Some a \<Rightarrow> a);
          content = (if bold annotations then lit ''**'' @ content @ lit ''**'' else content);
          content = (if italic annotations then lit ''*'' @ content @ lit ''*'' else content);
          content =
            (if strikethrough annotations then lit ''~~'' @ content @ lit ''~~'' else content);
          content = (if code annotations then lit ''`'' @ content @ lit ''`'' else content)
      in content)"

text \<open>The loop pushes one part per span; the parts are joined with no separator.\<close>

definition extractRichText :: "RichText list \<Rightarrow> jstring" where
  "extractRichText richText =
     concat (foldl (\<lambda>parts text. parts @ [style_span text]) [] richText)"

section \<open>BlockProcessor\<close>

definition newline :: jstring where
  "newline = [0x0A]"

definition recognized_types :: "jstring list" where
  "recognized_types =
     [lit ''paragraph'', lit ''heading_1'', lit ''heading_2'', lit ''heading_3'',
      lit ''bulleted_list_item'', lit ''numbered_list_item'', lit ''to_do'', lit ''code'',
      lit ''image'', lit ''quote'', lit ''divider'', lit ''callout'']"

text \<open>\<^verbatim>\<open>const blockData = block[blockType] || {};\<close>\<close>

definition block_data :: "Block \<Rightarrow> BlockData" where
  "block_data block = (case payload block of None \<Rightarrow> empty_data | Some d \<Rightarrow> d)"

text \<open>\<^verbatim>\<open>this.extractRichText(blockData.rich_text || [])\<close>\<close>

definition data_text :: "BlockData \<Rightarrow> jstring" where
  "data_text blockData = extractRichText (list_or_empty (rich_text blockData))"

text \<open>\<^verbatim>\<open>blockData.file?.url || blockData.external?.url || ""\<close>\<close>

definition image_url :: "BlockData \<Rightarrow> jstring" where
  "image_url blockData =
     str_or (Option.bind (file_ref blockData) url)
       (str_or (Option.bind (external_ref blockData) url) [])"

text \<open>
  One iteration of the loop of \<^verbatim>\<open>processBlocks\<close>: the \<^verbatim>\<open>switch\<close> over the type
  tag, each case pushing its fragment onto \<^verbatim>\<open>content\<close>. A tag that matches no case
  leaves \<^verbatim>\<open>content\<close> as it is.
\<close>

definition block_step :: "jstring list \<Rightarrow> Block \<Rightarrow> jstring list" where
  "block_step content block =
     (let blockType = block_type block;
          blockData = block_data block
      in
        if blockType = lit ''paragraph'' then
          content @ [data_text blockData @ newline @ newline]
        else if blockType = lit ''heading_1'' then
          content @ [lit ''# '' @ data_text blockData @ newline @ newline]
        else if blockType = lit ''heading_2'' then
          content @ [lit ''## '' @ data_text blockData @ newline @ newline]
        else if blockType = lit ''heading_3'' then
          content @ [lit ''### '' @ data_text blockData @ newline @ newline]
        else if blockType = lit ''bulleted_list_item'' then
          content @ [lit ''* '' @ data_text blockData @ newline]
        else if blockType = lit ''numbered_list_item'' then
          content @ [lit ''1. '' @ data_text blockData @ newline]
        else if blockType = lit ''to_do'' then
          (let checked = (if checked blockData = Some True then lit ''x'' else lit '' '')
           in content @ [lit ''- ['' @ checked @ lit ''] '' @ data_text blockData @ newline])
        else if blockType = lit ''code'' then
          (let language = str_or (language blockData) []
           in content @
                [lit ''```'' @ language @ newline @ data_text blockData @ newline @
                 lit ''```'' @ newline @ newline])
        else if blockType = lit ''image'' then
          (let caption = extractRichText (list_or_empty (caption blockData));
               url = image_url blockData
           in if url \<noteq> [] then
                content @
                  [lit ''!['' @ caption @ lit '']('' @ url @ lit '')'' @ newline @ newline]
              else content)
        else if blockType = lit ''quote'' then
          content @ [lit ''> '' @ data_text blockData @ newline @ newline]
        else if blockType = lit ''divider'' then
          content @ [lit ''---'' @ newline @ newline]
        else if blockType = lit ''callout'' then
          (let emoji = str_or (Option.bind (icon blockData) emoji) []
           in content @
                [lit ''> '' @ emoji @ lit '' '' @ data_text blockData @ newline @ newline])
        else content)"

definition processBlocks :: "Block list \<Rightarrow> jstring" where
  "processBlocks blocks = concat (foldl block_step [] blocks)"

section \<open>MetadataExtractor\<close>

text \<open>\<^verbatim>\<open>page.properties || {}\<close>\<close>

definition page_properties :: "Page \<Rightarrow> (jstring \<times> Property) list" where
  "page_properties page = list_or_empty (properties page)"

text \<open>
  \<^verbatim>\<open>
  const titleProp = properties.Name || properties.Title;
  if (titleProp && titleProp.title) {
    const titleParts = titleProp.title.map((part: any) => part.plain_text || "");
    return titleParts.join("");
  }
  return "Untitled";
  \<close>
\<close>

definition extractTitle :: "Page \<Rightarrow> jstring" where
  "extractTitle page =
     (let properties = page_properties page;
          titleProp = (case map_of properties (lit ''Name'') of
                         Some p \<Rightarrow> Some p
                       | None \<Rightarrow> map_of properties (lit ''Title''))
      in case titleProp of
           None \<Rightarrow> lit ''Untitled''
         | Some p \<Rightarrow>
             (case title p of
                None \<Rightarrow> lit ''Untitled''
              | Some parts \<Rightarrow> concat (map (\<lambda>part. str_or (plain_text part) []) parts)))"

text \<open>
  The assignment \<^verbatim>\<open>metadata[k] = v\<close>. Under every key but one it creates or
  replaces the own field \<open>k\<close>. The key \<^verbatim>\<open>__proto__\<close> is the accessor that
  \<^verbatim>\<open>Object.prototype\<close> defines: assigning to it writes no own field; its setter
  makes an array the prototype of the object and ignores a string.
\<close>

definition assign :: "PageMetadata \<Rightarrow> jstring \<Rightarrow> MetaValue \<Rightarrow> PageMetadata" where
  "assign metadata k v =
     (if k = lit ''__proto__'' then
        (case v of
           Str s \<Rightarrow> metadata
         | StrList xs \<Rightarrow> metadata\<lparr>prototype := Some xs\<rparr>)
      else metadata\<lparr>own_fields := (own_fields metadata)(k \<mapsto> v)\<rparr>)"

text \<open>
  One iteration of the loop of \<^verbatim>\<open>extractMetadata\<close> over
  \<^verbatim>\<open>Object.entries(properties)\<close>:
  \<^verbatim>\<open>
  if (propType === "select" && prop.select) {
    metadata[key.toLowerCase()] = prop.select.name || "";
  } else if (propType === "multi_select" && prop.multi_select) {
    metadata[key.toLowerCase()] = prop.multi_select.map((item) => item.name || "");
  } else if (propType === "date" && prop.date) {
    metadata[key.toLowerCase()] = prop.date.start || "";
  }
  \<close>
\<close>

definition metadata_step ::
  "(jstring \<Rightarrow> jstring) \<Rightarrow> PageMetadata \<Rightarrow> jstring \<times> Property \<Rightarrow> PageMetadata" where
  "metadata_step lc metadata entry =
     (let key = fst entry; prop = snd entry; propType = prop_type prop
      in
        if propType = lit ''select'' \<and> select prop \<noteq> None then
          assign metadata (lc key) (Str (str_or (name (the (select prop))) []))
        else if propType = lit ''multi_select'' \<and> multi_select prop \<noteq> None then
          assign metadata (lc key)
            (StrList (map (\<lambda>item. str_or (name item) []) (the (multi_select prop))))
        else if propType = lit ''date'' \<and> date prop \<noteq> None then
          assign metadata (lc key) (Str (str_or (start (the (date prop))) []))
        else metadata)"

definition extractMetadata :: "(jstring \<Rightarrow> jstring) \<Rightarrow> Page \<Rightarrow> PageMetadata" where
  "extractMetadata lc page =
     (let properties = page_properties page;
          metadata =
            \<lparr>own_fields =
               [lit ''createdTime'' \<mapsto> Str (str_or (created_time page) []),
                lit ''lastEditedTime'' \<mapsto> Str (str_or (last_edited_time page) []),
                lit ''url'' \<mapsto> Str (str_or (page_url page) [])],
             prototype = None\<rparr>
      in foldl (metadata_step lc) metadata properties)"

section \<open>Title extraction on an arbitrary JSON value\<close>

text \<open>
  The parameter of \<^verbatim>\<open>extractTitle\<close> is declared \<^verbatim>\<open>any\<close>: at run time it is
  whatever the response of the content source holds. This section gives the function
  on every JSON value, with the \<^verbatim>\<open>TypeError\<close> that JavaScript raises as a result.
  A number is given by the string that \<^verbatim>\<open>ToString\<close> renders it as: the code only
  tests a number for truth and converts it to a string. \<open>JUndefined\<close> is the result
  of reading a property that is not there.
\<close>

datatype json =
    JUndefined
  | JNull
  | JBool bool
  | JNum jstring
  | JStr jstring
  | JArr "json list"
  | JObj "(jstring \<times> json) list"

datatype error = TypeError

text \<open>Falsy are \<^verbatim>\<open>undefined\<close>, \<^verbatim>\<open>null\<close>, \<^verbatim>\<open>false\<close>, zero and the empty string.\<close>

fun truthy :: "json \<Rightarrow> bool" where
  "truthy JUndefined = False"
| "truthy JNull = False"
| "truthy (JBool b) = b"
| "truthy (JNum s) = (s \<noteq> lit ''0'')"
| "truthy (JStr s) = (s \<noteq> [])"
| "truthy (JArr xs) = True"
| "truthy (JObj kvs) = True"

text \<open>
  Reading the property \<open>k\<close> of a value, for the keys that \<^verbatim>\<open>extractTitle\<close> reads
  (\<^verbatim>\<open>properties\<close>, \<^verbatim>\<open>Name\<close>, \<^verbatim>\<open>Title\<close>, \<^verbatim>\<open>title\<close>, \<^verbatim>\<open>plain_text\<close>), none of which
  a prototype defines: \<^verbatim>\<open>undefined\<close> and \<^verbatim>\<open>null\<close> have no properties, an object
  has its own fields, every other value has none of these.
\<close>

fun get_prop :: "json \<Rightarrow> jstring \<Rightarrow> error + json" where
  "get_prop JUndefined k = Inl TypeError"
| "get_prop JNull k = Inl TypeError"
| "get_prop (JObj kvs) k =
     Inr (case map_of kvs k of None \<Rightarrow> JUndefined | Some v \<Rightarrow> v)"
| "get_prop v k = Inr JUndefined"

text \<open>
  \<^verbatim>\<open>ToString\<close> of a value, and \<^verbatim>\<open>Array.prototype.join\<close>. An array converts by
  joining its elements with a comma; \<^verbatim>\<open>join\<close> renders \<^verbatim>\<open>undefined\<close> and
  \<^verbatim>\<open>null\<close> as the empty string. An object converts to \<^verbatim>\<open>[object Object]\<close>,
  unless it has an own field \<^verbatim>\<open>toString\<close>: that is no function, and the conversion
  raises.
\<close>

fun to_string :: "json \<Rightarrow> error + jstring"
  and join_with :: "jstring \<Rightarrow> json list \<Rightarrow> error + jstring" where
  "to_string JUndefined = Inr (lit ''undefined'')"
| "to_string JNull = Inr (lit ''null'')"
| "to_string (JBool b) = Inr (if b then lit ''true'' else lit ''false'')"
| "to_string (JNum s) = Inr s"
| "to_string (JStr s) = Inr s"
| "to_string (JArr xs) = join_with (lit '','') xs"
| "to_string (JObj kvs) =
     (if map_of kvs (lit ''toString'') \<noteq> None then Inl TypeError
      else Inr (lit ''[object Object]''))"
| "join_with sep [] = Inr []"
| "join_with sep (x # xs) =
     (case (if x = JUndefined \<or> x = JNull then Inr [] else to_string x) of
        Inl e \<Rightarrow> Inl e
      | Inr s \<Rightarrow>
          (if xs = [] then Inr s
           else (case join_with sep xs of
                   Inl e \<Rightarrow> Inl e
                 | Inr r \<Rightarrow> Inr (s @ sep @ r))))"

text \<open>The callback \<^verbatim>\<open>(part) => part.plain_text || ""\<close>.\<close>

definition title_part :: "json \<Rightarrow> error + json" where
  "title_part part =
     (case get_prop part (lit ''plain_text'') of
        Inl e \<Rightarrow> Inl e
      | Inr t \<Rightarrow> Inr (if truthy t then t else JStr []))"

text \<open>\<^verbatim>\<open>Array.prototype.map\<close> with that callback: it stops at the first exception.\<close>

fun map_parts :: "json list \<Rightarrow> error + json list" where
  "map_parts [] = Inr []"
| "map_parts (part # parts) =
     (case title_part part of
        Inl e \<Rightarrow> Inl e
      | Inr v \<Rightarrow>
          (case map_parts parts of
             Inl e \<Rightarrow> Inl e
           | Inr vs \<Rightarrow> Inr (v # vs)))"

text \<open>
  \<^verbatim>\<open>titleProp.title.map(...)\<close> on a truthy value: only an array has the method;
  on any other value the call raises.
\<close>

definition extractTitle_json :: "json \<Rightarrow> error + jstring" where
  "extractTitle_json page =
     (case get_prop page (lit ''properties'') of
        Inl e \<Rightarrow> Inl e
      | Inr ps \<Rightarrow>
          (let properties = (if truthy ps then ps else JObj [])
           in case get_prop properties (lit ''Name'') of
                Inl e \<Rightarrow> Inl e
              | Inr nm \<Rightarrow>
                  (case (if truthy nm then Inr nm
                         else get_prop properties (lit ''Title'')) of
                     Inl e \<Rightarrow> Inl e
                   | Inr titleProp \<Rightarrow>
                       if truthy titleProp then
                         (case get_prop titleProp (lit ''title'') of
                            Inl e \<Rightarrow> Inl e
                          | Inr t \<Rightarrow>
                              if truthy t then
                                (case t of
                                   JArr parts \<Rightarrow>
                                     (case map_parts parts of
                                        Inl e \<Rightarrow> Inl e
                                      | Inr titleParts \<Rightarrow> join_with [] titleParts)
                                 | _ \<Rightarrow> Inl TypeError)
                              else Inr (lit ''Untitled''))
                       else Inr (lit ''Untitled''))))"

subsection \<open>The JSON value of a page of the declared shape\<close>

text \<open>A field that is absent is left out of the object.\<close>

definition opt_field :: "jstring \<Rightarrow> json option \<Rightarrow> (jstring \<times> json) list" where
  "opt_field k x = (case x of None \<Rightarrow> [] | Some v \<Rightarrow> [(k, v)])"

definition annotations_json :: "Annotations \<Rightarrow> json" where
  "annotations_json a =
     JObj [(lit ''bold'', JBool (bold a)), (lit ''italic'', JBool (italic a)),
           (lit ''strikethrough'', JBool (strikethrough a)),
           (lit ''underline'', JBool (underline a)), (lit ''code'', JBool (code a)),
           (lit ''color'', JStr (color a))]"

definition rich_json :: "RichText \<Rightarrow> json" where
  "rich_json text =
     JObj (opt_field (lit ''plain_text'') (map_option JStr (plain_text text)) @
           opt_field (lit ''annotations'') (map_option annotations_json (annotations text)))"

definition option_json :: "SelectOption \<Rightarrow> json" where
  "option_json s = JObj (opt_field (lit ''name'') (map_option JStr (name s)))"

definition date_json :: "DateValue \<Rightarrow> json" where
  "date_json d = JObj (opt_field (lit ''start'') (map_option JStr (start d)))"

definition prop_json :: "Property \<Rightarrow> json" where
  "prop_json p =
     JObj (opt_field (lit ''title'') (map_option (\<lambda>parts. JArr (map rich_json parts)) (title p)) @
           [(lit ''type'', JStr (prop_type p))] @
           opt_field (lit ''select'') (map_option option_json (select p)) @
           opt_field (lit ''multi_select'')
             (map_option (\<lambda>items. JArr (map option_json items)) (multi_select p)) @
           opt_field (lit ''date'') (map_option date_json (date p)))"

definition page_json :: "Page \<Rightarrow> json" where
  "page_json page =
     JObj (opt_field (lit ''properties'')
             (map_option (\<lambda>bag. JObj (map (\<lambda>(k, p). (k, prop_json p)) bag)) (properties page)) @
           [(lit ''id'', JStr (page_id page))] @
           opt_field (lit ''created_time'') (map_option JStr (created_time page)) @
           opt_field (lit ''last_edited_time'') (map_option JStr (last_edited_time page)) @
           opt_field (lit ''url'') (map_option JStr (page_url page)))"

section \<open>Notions used in the statements\<close>

subsection \<open>Nesting of the inline styles\<close>

definition wrap_if :: "bool \<Rightarrow> jstring \<Rightarrow> jstring \<Rightarrow> jstring" where
  "wrap_if flag mark s = (if flag then mark @ s @ mark else s)"

text \<open>\<^verbatim>\<open>text.annotations || {}\<close>\<close>

definition span_flags :: "RichText \<Rightarrow> Annotations" where
  "span_flags text = (case annotations text of None \<Rightarrow> no_annotations | Some a \<Rightarrow> a)"

text \<open>
  The nesting as the specification words it: bold outermost, then italic, then
  strikethrough, code innermost.
\<close>

definition bold_outermost :: "RichText \<Rightarrow> jstring" where
  "bold_outermost text =
     wrap_if (bold (span_flags text)) (lit ''**'')
       (wrap_if (italic (span_flags text)) (lit ''*'')
         (wrap_if (strikethrough (span_flags text)) (lit ''~~'')
           (wrap_if (code (span_flags text)) (lit ''`'') (str_or (plain_text text) []))))"

text \<open>The reverse nesting: code outermost, then strikethrough, then italic, bold innermost.\<close>

definition code_outermost :: "RichText \<Rightarrow> jstring" where
  "code_outermost text =
     wrap_if (code (span_flags text)) (lit ''`'')
       (wrap_if (strikethrough (span_flags text)) (lit ''~~'')
         (wrap_if (italic (span_flags text)) (lit ''*'')
           (wrap_if (bold (span_flags text)) (lit ''**'') (str_or (plain_text text) []))))"

subsection \<open>Fragments of the body\<close>

text \<open>What one block contributes to the body.\<close>

definition fragment :: "Block \<Rightarrow> jstring" where
  "fragment block = concat (block_step [] block)"

definition file_url :: "Block \<Rightarrow> jstring option" where
  "file_url block = Option.bind (file_ref (block_data block)) url"

definition external_url :: "Block \<Rightarrow> jstring option" where
  "external_url block = Option.bind (external_ref (block_data block)) url"

text \<open>A URL that is there and is not the empty string.\<close>

definition usable :: "jstring option \<Rightarrow> bool" where
  "usable x = (x \<noteq> None \<and> x \<noteq> Some [])"

text \<open>The URL of an image: the uploaded file's, else the external one, else none.\<close>

definition resolved_url :: "Block \<Rightarrow> jstring option" where
  "resolved_url block =
     (if usable (file_url block) then file_url block
      else if usable (external_url block) then external_url block
      else None)"

definition caption_text :: "Block \<Rightarrow> jstring" where
  "caption_text block = extractRichText (list_or_empty (caption (block_data block)))"

definition image_markup :: "jstring \<Rightarrow> jstring \<Rightarrow> jstring" where
  "image_markup cap u = lit ''!['' @ cap @ lit '']('' @ u @ lit '')'' @ newline @ newline"

subsection \<open>Titles and metadata fields\<close>

text \<open>The title a property carries: the plain texts of its title spans, or the default.\<close>

definition title_of :: "Property \<Rightarrow> jstring" where
  "title_of p =
     (case title p of
        None \<Rightarrow> lit ''Untitled''
      | Some parts \<Rightarrow> concat (map (\<lambda>part. str_or (plain_text part) []) parts))"

text \<open>
  The value an entry of the bag yields: for the declared type select the name of the
  option, for multi-select the list of the names, for date the start, each only when
  the payload of that name is there; nothing for any other declared type.
\<close>

definition field_value :: "Property \<Rightarrow> MetaValue option" where
  "field_value p =
     (if prop_type p = lit ''select'' then
        map_option (\<lambda>s. Str (str_or (name s) [])) (select p)
      else if prop_type p = lit ''multi_select'' then
        map_option (\<lambda>items. StrList (map (\<lambda>item. str_or (name item) []) items))
          (multi_select p)
      else if prop_type p = lit ''date'' then
        map_option (\<lambda>d. Str (str_or (start d) [])) (date p)
      else None)"

text \<open>
  The own fields the entries write, in the order of the bag, under lower-cased keys.
  An entry whose lower-cased key is \<^verbatim>\<open>__proto__\<close> writes none.
\<close>

fun written_fields ::
  "(jstring \<Rightarrow> jstring) \<Rightarrow> (jstring \<times> Property) list \<Rightarrow> (jstring \<times> MetaValue) list" where
  "written_fields lc [] = []"
| "written_fields lc ((key, p) # entries) =
     (case field_value p of
        None \<Rightarrow> written_fields lc entries
      | Some v \<Rightarrow>
          if lc key = lit ''__proto__'' then written_fields lc entries
          else (lc key, v) # written_fields lc entries)"

text \<open>The three fields taken from the page itself.\<close>

definition fixed_fields :: "Page \<Rightarrow> (jstring \<rightharpoonup> MetaValue)" where
  "fixed_fields page =
     [lit ''createdTime'' \<mapsto> Str (str_or (created_time page) []),
      lit ''lastEditedTime'' \<mapsto> Str (str_or (last_edited_time page) []),
      lit ''url'' \<mapsto> Str (str_or (page_url page) [])]"

section \<open>Example inputs\<close>

text \<open>
  A lower-casing to try the statements with: the capitals A to Z and the Latin-1
  capitals move up by 32, the dotted capital I (U+0130) becomes i followed by the
  combining dot U+0307, the Kelvin sign (U+212A) becomes k, every other code unit
  stays.
\<close>

definition lower_unit :: "nat \<Rightarrow> jstring" where
  "lower_unit c =
     (if (0x41 \<le> c \<and> c \<le> 0x5A) \<or> (0xC0 \<le> c \<and> c \<le> 0xDE \<and> c \<noteq> 0xD7) then [c + 32]
      else if c = 0x0130 then [0x69, 0x0307]
      else if c = 0x212A then [0x6B]
      else [c])"

definition basic_lower :: "jstring \<Rightarrow> jstring" where
  "basic_lower s = concat (map lower_unit s)"

text \<open>
  A title with the Kelvin sign, an ideographic space (U+3000), the dotted capital I,
  a line separator (U+2028) and punctuation around ASCII text.
\<close>

definition wide_title :: jstring where
  "wide_title = [0x2028] @ lit ''  My_'' @ [0x212A, 0x3000, 0x0130] @ lit '' Page -- 2!'' @ [0xFEFF]"

definition plain_span :: "string \<Rightarrow> RichText" where
  "plain_span s = \<lparr>plain_text = Some (lit s), annotations = None\<rparr>"

definition all_styles :: RichText where
  "all_styles =
     \<lparr>plain_text = Some (lit ''x''),
      annotations = Some \<lparr>bold = True, italic = True, strikethrough = True,
        underline = False, code = True, color = lit ''default''\<rparr>\<rparr>"

definition text_block :: "string \<Rightarrow> string \<Rightarrow> Block" where
  "text_block tag s =
     \<lparr>block_id = lit ''b'', block_type = lit tag,
      payload = Some (empty_data\<lparr>rich_text := Some [plain_span s]\<rparr>)\<rparr>"

definition image_block :: "string option \<Rightarrow> string option \<Rightarrow> Block" where
  "image_block f e =
     \<lparr>block_id = lit ''img'', block_type = lit ''image'',
      payload = Some (empty_data\<lparr>
        caption := Some [plain_span ''logo''],
        file_ref := map_option (\<lambda>u. \<lparr>url = Some (lit u)\<rparr>) f,
        external_ref := map_option (\<lambda>u. \<lparr>url = Some (lit u)\<rparr>) e\<rparr>)\<rparr>"

definition select_prop :: "string option \<Rightarrow> Property" where
  "select_prop v =
     \<lparr>prop_type = lit ''select'', title = None,
      select = map_option (\<lambda>s. \<lparr>name = Some (lit s)\<rparr>) v, multi_select = None,
      date = None\<rparr>"

definition tags_prop :: "string list \<Rightarrow> Property" where
  "tags_prop vs =
     \<lparr>prop_type = lit ''multi_select'', title = None, select = None,
      multi_select = Some (map (\<lambda>s. \<lparr>name = Some (lit s)\<rparr>) vs), date = None\<rparr>"

definition title_prop :: "string \<Rightarrow> Property" where
  "title_prop s =
     \<lparr>prop_type = lit ''title'', title = Some [plain_span s],
      select = None, multi_select = None, date = None\<rparr>"

text \<open>A property that carries no title value.\<close>

definition text_prop :: Property where
  "text_prop =
     \<lparr>prop_type = lit ''rich_text'', title = None,
      select = None, multi_select = None, date = None\<rparr>"

definition page_with :: "(jstring \<times> Property) list option \<Rightarrow> Page" where
  "page_with bag =
     \<lparr>page_id = lit ''p1'', created_time = Some (lit ''2025-01-01T00:00:00.000Z''),
      last_edited_time = Some (lit ''2025-01-02T00:00:00.000Z''),
      page_url = Some (lit ''https://www.notion.so/p1''), properties = bag\<rparr>"

text \<open>
  A page with a select property that has no option chosen, two properties whose names
  differ in case only, a select property named \<^verbatim>\<open>Url\<close> and one named
  \<^verbatim>\<open>__proto__\<close>.
\<close>

definition clash_page :: Page where
  "clash_page =
     page_with (Some
       [(lit ''Status'', select_prop None),
        (lit ''Tag'', select_prop (Some ''first'')),
        (lit ''tag'', select_prop (Some ''second'')),
        (lit ''Url'', select_prop (Some ''draft'')),
        (lit ''__proto__'', select_prop (Some ''hidden''))])"

text \<open>A page with a select property named \<^verbatim>\<open>Url\<close>.\<close>

definition url_select_page :: Page where
  "url_select_page = page_with (Some [(lit ''Url'', select_prop (Some ''draft''))])"

text \<open>A page with a multi-select property named \<^verbatim>\<open>URL\<close>.\<close>

definition url_tags_page :: Page where
  "url_tags_page = page_with (Some [(lit ''URL'', tags_prop [''a'', ''b''])])"

text \<open>A page whose \<^verbatim>\<open>Name\<close> carries no title value while its \<^verbatim>\<open>Title\<close> does.\<close>

definition name_without_title_page :: Page where
  "name_without_title_page =
     page_with (Some [(lit ''Name'', text_prop), (lit ''Title'', title_prop ''Real title'')])"

text \<open>Pages that are not of the declared shape.\<close>

definition number_title_page :: json where
  "number_title_page =
     JObj [(lit ''properties'',
            JObj [(lit ''Name'', JObj [(lit ''title'', JNum (lit ''42''))])])]"

definition null_span_page :: json where
  "null_span_page =
     JObj [(lit ''properties'',
            JObj [(lit ''Name'', JObj [(lit ''title'', JArr [JNull])])])]"

section \<open>Auxiliary notions for the proofs\<close>

text \<open>The code units a slug is made of: lower-case letters, digits and the hyphen.\<close>

definition slug_chars :: jstring where
  "slug_chars = lit ''abcdefghijklmnopqrstuvwxyz0123456789-''"

text \<open>Deleting the run at the end of a list that satisfies \<open>P\<close>.\<close>

definition drop_end :: "('a \<Rightarrow> bool) \<Rightarrow> 'a list \<Rightarrow> 'a list" where
  "drop_end P xs = rev (dropWhile P (rev xs))"

text \<open>
  Every separator of the string is a hyphen, and no separator follows it directly:
  what \<open>collapse_runs\<close> establishes and leaves alone.
\<close>

fun single_hyphens :: "jstring \<Rightarrow> bool" where
  "single_hyphens [] = True"
| "single_hyphens (c # cs) =
     ((if is_sep c then c = of_char CHR ''-'' \<and> (cs = [] \<or> \<not> is_sep (hd cs)) else True) \<and>
      single_hyphens cs)"

section \<open>Properties of the slugifier\<close>

subsection \<open>Literals and character classes\<close>

lemma lit_eq_iff [simp]: "(lit a = lit b) = (a = b)"
  unfolding lit_def by (simp add: inj_map_eq_map inj_of_char)

lemma upper_code: "is_upper c = (65 \<le> c \<and> c \<le> 90)"
  unfolding is_upper_def lit_def by (simp, arith)

lemma slug_range:
  "c \<in> set slug_chars \<Longrightarrow> c = 45 \<or> (48 \<le> c \<and> c \<le> 57) \<or> (97 \<le> c \<and> c \<le> 122)"
  by (auto simp: slug_chars_def lit_def)

lemma space_range: "is_space c \<Longrightarrow> c \<le> 32 \<or> 160 \<le> c"
  by (auto simp: is_space_def)

lemma kept_slug_char:
  "is_kept c \<Longrightarrow> \<not> is_sep c \<Longrightarrow> \<not> is_upper c \<Longrightarrow> c \<in> set slug_chars"
  by (auto simp: is_kept_def is_sep_def is_upper_def is_word_def slug_chars_def lit_def)

lemma slug_char_kept: "c \<in> set slug_chars \<Longrightarrow> is_kept c"
  by (auto simp: slug_chars_def is_kept_def is_word_def lit_def)

lemma slug_char_no_space: "c \<in> set slug_chars \<Longrightarrow> \<not> is_space c"
  using slug_range space_range by fastforce

lemma slug_char_no_upper: "c \<in> set slug_chars \<Longrightarrow> \<not> is_upper c"
  using slug_range by (fastforce simp: upper_code)

lemma slug_char_ascii: "c \<in> set slug_chars \<Longrightarrow> c < 128"
  using slug_range by fastforce

lemma lower_casing_no_upper: "lower_casing lc \<Longrightarrow> c \<in> set (lc s) \<Longrightarrow> \<not> is_upper c"
  by (simp add: lower_casing_def)

lemma lower_casing_slug:
  assumes lc: "lower_casing lc" and v: "\<forall>c \<in> set v. c \<in> set slug_chars"
  shows "lc v = v"
proof -
  have "\<forall>c \<in> set v. c < 128" using v slug_char_ascii by blast
  with lc have "lc v = map ascii_lower v" by (simp add: lower_casing_def)
  also have "\<dots> = v"
    using v by (intro map_idI) (simp add: ascii_lower_def slug_char_no_upper)
  finally show ?thesis .
qed

lemma lower_unit_ascii: "c < 128 \<Longrightarrow> lower_unit c = [ascii_lower c]"
  by (auto simp: lower_unit_def ascii_lower_def upper_code)

lemma lower_unit_no_upper: "d \<in> set (lower_unit c) \<Longrightarrow> \<not> is_upper d"
  by (auto simp: lower_unit_def upper_code split: if_splits)

lemma basic_lower_casing: "lower_casing basic_lower"
proof -
  have "\<forall>c \<in> set (basic_lower s). \<not> is_upper c" for s
    by (auto simp: basic_lower_def dest: lower_unit_no_upper)
  moreover have "basic_lower s = map ascii_lower s" if "\<forall>c \<in> set s. c < 128" for s
    using that by (induction s) (simp_all add: basic_lower_def lower_unit_ascii)
  ultimately show ?thesis by (simp add: lower_casing_def)
qed

subsection \<open>Runs at the two ends of a list\<close>

lemma dropWhile_none: "xs = [] \<or> \<not> P (hd xs) \<Longrightarrow> dropWhile P xs = xs"
  by (cases xs) auto

lemma head_dropWhile: "dropWhile P xs = [] \<or> \<not> P (hd (dropWhile P xs))"
  using hd_dropWhile by blast

lemma drop_end_hd:
  assumes "xs = [] \<or> \<not> P (hd xs)"
  shows "drop_end P xs = [] \<or> \<not> P (hd (drop_end P xs))"
proof (cases xs)
  case Nil
  then show ?thesis by (simp add: drop_end_def)
next
  case (Cons x ys)
  with assms have nx: "\<not> P x" by simp
  have "dropWhile P (rev ys @ [x]) = dropWhile P (rev ys) @ [x]
        \<or> dropWhile P (rev ys @ [x]) = [x]"
    using nx by (simp add: dropWhile_append)
  then have "hd (drop_end P xs) = x"
    using Cons by (auto simp: drop_end_def)
  with nx show ?thesis by simp
qed

lemma drop_end_last: "drop_end P xs = [] \<or> \<not> P (last (drop_end P xs))"
proof -
  have "dropWhile P (rev xs) = [] \<or> \<not> P (hd (dropWhile P (rev xs)))"
    by (rule head_dropWhile)
  then show ?thesis
    by (auto simp: drop_end_def last_rev)
qed

lemma drop_end_none:
  assumes "xs = [] \<or> \<not> P (last xs)"
  shows "drop_end P xs = xs"
proof -
  from assms have "rev xs = [] \<or> \<not> P (hd (rev xs))"
    by (auto simp: hd_rev)
  then have "dropWhile P (rev xs) = rev xs"
    by (rule dropWhile_none)
  then show ?thesis by (simp add: drop_end_def)
qed

lemma drop_end_prefix: "prefix (drop_end P xs) xs"
proof -
  have "rev xs = takeWhile P (rev xs) @ dropWhile P (rev xs)" by simp
  then have "xs = rev (dropWhile P (rev xs)) @ rev (takeWhile P (rev xs))"
    by (metis rev_append rev_rev_ident)
  then show ?thesis
    unfolding drop_end_def by (metis prefixI)
qed

lemma dropWhile_suffix: "suffix (dropWhile P xs) xs"
  by (metis suffixI takeWhile_dropWhile_id)

lemma set_drop_end: "set (drop_end P xs) \<subseteq> set xs"
  using drop_end_prefix[of P xs] by (rule set_mono_prefix)

lemma strip_drop_end: "strip_hyphens s = drop_end is_hyphen (dropWhile is_hyphen s)"
  by (simp add: strip_hyphens_def drop_end_def)

lemma trim_drop_end: "trim s = drop_end is_space (dropWhile is_space s)"
  by (simp add: trim_def drop_end_def)

lemma set_trim: "set (trim s) \<subseteq> set s"
proof -
  have "set (dropWhile is_space s) \<subseteq> set s" by (auto dest: set_dropWhileD)
  with set_drop_end[of is_space "dropWhile is_space s"] show ?thesis
    by (auto simp: trim_drop_end)
qed

lemma set_strip: "set (strip_hyphens s) \<subseteq> set s"
proof -
  have "set (dropWhile is_hyphen s) \<subseteq> set s" by (auto dest: set_dropWhileD)
  with set_drop_end[of is_hyphen "dropWhile is_hyphen s"] show ?thesis
    by (auto simp: strip_drop_end)
qed

subsection \<open>Collapsing the runs of separators\<close>

lemma collapse_head:
  "xs = [] \<or> \<not> is_sep (hd xs) \<Longrightarrow>
   collapse_runs xs = [] \<or> \<not> is_sep (hd (collapse_runs xs))"
  by (cases xs) auto

lemma collapse_single: "single_hyphens (collapse_runs t)"
proof (induction t rule: collapse_runs.induct)
  case 1
  then show ?case by simp
next
  case (2 c cs)
  show ?case
  proof (cases "is_sep c")
    case True
    have "dropWhile is_sep cs = [] \<or> \<not> is_sep (hd (dropWhile is_sep cs))"
      by (rule head_dropWhile)
    then have "collapse_runs (dropWhile is_sep cs) = []
        \<or> \<not> is_sep (hd (collapse_runs (dropWhile is_sep cs)))"
      by (rule collapse_head)
    with True 2 show ?thesis by (simp add: is_sep_def)
  next
    case False
    with 2 show ?thesis by simp
  qed
qed

lemma single_collapse: "single_hyphens u \<Longrightarrow> collapse_runs u = u"
proof (induction u rule: collapse_runs.induct)
  case 1
  then show ?case by simp
next
  case (2 c cs)
  show ?case
  proof (cases "is_sep c")
    case True
    with 2(3) have c: "c = of_char CHR ''-''" and h: "cs = [] \<or> \<not> is_sep (hd cs)"
      and s: "single_hyphens cs"
      by auto
    from h have d: "dropWhile is_sep cs = cs" by (rule dropWhile_none)
    from 2(1)[OF True] s d have "collapse_runs cs = cs" by simp
    with True c d show ?thesis by simp
  next
    case False
    with 2 show ?thesis by simp
  qed
qed

lemma single_append: "single_hyphens (xs @ ys) \<Longrightarrow> single_hyphens xs \<and> single_hyphens ys"
proof (induction xs)
  case Nil
  then show ?case by simp
next
  case (Cons x xs)
  then show ?case by (cases xs) (auto split: if_splits)
qed

lemma single_strip:
  assumes u: "single_hyphens u"
  shows "single_hyphens (strip_hyphens u)"
proof -
  obtain a where "u = a @ dropWhile is_hyphen u"
    using dropWhile_suffix[of is_hyphen u] by (auto simp: suffix_def)
  with u have w: "single_hyphens (dropWhile is_hyphen u)"
    using single_append by metis
  obtain b where "dropWhile is_hyphen u = drop_end is_hyphen (dropWhile is_hyphen u) @ b"
    using drop_end_prefix[of is_hyphen "dropWhile is_hyphen u"] by (auto simp: prefix_def)
  with w have "single_hyphens (drop_end is_hyphen (dropWhile is_hyphen u))"
    using single_append by metis
  then show ?thesis by (simp add: strip_hyphens_def drop_end_def)
qed

lemma set_collapse: "set (collapse_runs t) \<subseteq> insert (of_char CHR ''-'') {c \<in> set t. \<not> is_sep c}"
proof (induction t rule: collapse_runs.induct)
  case 1
  then show ?case by simp
next
  case (2 c cs)
  show ?case
  proof (cases "is_sep c")
    case True
    have "set (dropWhile is_sep cs) \<subseteq> set cs"
      by (auto dest: set_dropWhileD)
    with 2(1)[OF True] True show ?thesis by auto
  next
    case False
    with 2(2) show ?thesis by auto
  qed
qed

subsection \<open>The shape of a slug\<close>

lemma slugify_chars:
  assumes lc: "lower_casing lc" and c: "c \<in> set (slugify lc s)"
  shows "c \<in> set slug_chars"
proof -
  from c have "c \<in> set (collapse_runs (remove_other (trim (lc s))))"
    using set_strip by (auto simp: slugify_def)
  then have "c = of_char CHR ''-''
      \<or> (c \<in> set (remove_other (trim (lc s))) \<and> \<not> is_sep c)"
    using set_collapse by fastforce
  moreover have "c \<in> set slug_chars"
    if "c \<in> set (remove_other (trim (lc s)))" "\<not> is_sep c"
  proof -
    from that(1) have k: "is_kept c" and "c \<in> set (trim (lc s))"
      by (auto simp: remove_other_def)
    then have "c \<in> set (lc s)" using set_trim by blast
    with lc have "\<not> is_upper c" by (rule lower_casing_no_upper)
    with k that(2) show ?thesis by (rule kept_slug_char)
  qed
  moreover have "of_char CHR ''-'' \<in> set slug_chars" by (simp add: slug_chars_def lit_def)
  ultimately show ?thesis by auto
qed

lemma slugify_ends:
  "(slugify lc s = [] \<or> \<not> is_hyphen (hd (slugify lc s))) \<and>
   (slugify lc s = [] \<or> \<not> is_hyphen (last (slugify lc s)))"
proof -
  let ?u = "collapse_runs (remove_other (trim (lc s)))"
  let ?w = "dropWhile is_hyphen ?u"
  have "?w = [] \<or> \<not> is_hyphen (hd ?w)"
    by (rule head_dropWhile)
  then have "drop_end is_hyphen ?w = [] \<or> \<not> is_hyphen (hd (drop_end is_hyphen ?w))"
    by (rule drop_end_hd)
  moreover have "drop_end is_hyphen ?w = [] \<or> \<not> is_hyphen (last (drop_end is_hyphen ?w))"
    by (rule drop_end_last)
  ultimately show ?thesis by (simp add: slugify_def strip_drop_end)
qed

lemma slugify_single: "single_hyphens (slugify lc s)"
  by (simp add: slugify_def single_strip collapse_single)

lemma slug_fixed:
  assumes lc: "lower_casing lc"
    and chars: "\<forall>c \<in> set v. c \<in> set slug_chars"
    and ends: "(v = [] \<or> \<not> is_hyphen (hd v)) \<and> (v = [] \<or> \<not> is_hyphen (last v))"
    and single: "single_hyphens v"
  shows "slugify lc v = v"
proof -
  have low: "lc v = v" using lc chars by (rule lower_casing_slug)
  have nospace: "\<forall>c \<in> set v. \<not> is_space c"
    using chars by (auto dest: slug_char_no_space)
  have "v = [] \<or> \<not> is_space (hd v)" "v = [] \<or> \<not> is_space (last v)"
    using nospace by (cases v; simp)+
  then have tr: "trim v = v"
    by (simp add: trim_drop_end dropWhile_none drop_end_none)
  have kept: "remove_other v = v"
    unfolding remove_other_def using chars
    by (intro filter_True) (auto dest: slug_char_kept)
  have col: "collapse_runs v = v" using single by (rule single_collapse)
  have st: "strip_hyphens v = v"
    using ends by (simp add: strip_drop_end dropWhile_none drop_end_none)
  show ?thesis by (simp add: slugify_def low tr kept col st)
qed

lemma wide_title_slug: "slugify basic_lower wide_title = lit ''my-k-i-page-2''"
  by (simp add: wide_title_def slugify_def basic_lower_def lower_unit_def trim_def
      remove_other_def strip_hyphens_def is_kept_def is_word_def is_space_def is_sep_def
      is_hyphen_def lit_def)

lemma punctuation_slug:
  "strip_hyphens (collapse_runs (remove_other (trim (map ascii_lower (lit ''?!...''))))) = []"
  by (simp add: trim_def remove_other_def strip_hyphens_def is_kept_def
      is_word_def is_space_def is_sep_def is_hyphen_def is_upper_def ascii_lower_def lit_def)

text \<open>
  C2. \<open>slugify\<close> is idempotent: slugifying a slug gives the slug back, for every
  string of code units and every lower-casing that has the two properties of
  \<^verbatim>\<open>toLowerCase\<close>. It is total: \<open>slugify\<close> is a function from strings to
  strings, whose only loop (the replacement of the runs of separators) has been
  proved to terminate.
\<close>

theorem slugify_idempotent:
  assumes "lower_casing lc"
  shows "slugify lc (slugify lc s) = slugify lc s"
  using assms slugify_chars[OF assms] slugify_ends slugify_single
  by (intro slug_fixed) auto

theorem slugify_idempotent_witness:
  "lower_casing basic_lower \<and>
   slugify basic_lower wide_title = lit ''my-k-i-page-2'' \<and>
   slugify basic_lower (slugify basic_lower wide_title) = slugify basic_lower wide_title"
  using slugify_idempotent[OF basic_lower_casing, of wide_title]
  by (simp add: basic_lower_casing wide_title_slug)

text \<open>
  C3. A slug contains only lower-case letters, digits and hyphens (so only lower-case
  word characters and hyphens), it neither starts nor ends with a hyphen, and the
  empty string is a slug: that of a title made of punctuation only.
\<close>

theorem slugify_output_shape:
  assumes "lower_casing lc"
  shows "set (slugify lc s) \<subseteq> set (lit ''abcdefghijklmnopqrstuvwxyz0123456789-'') \<and>
   \<not> prefix (lit ''-'') (slugify lc s) \<and> \<not> suffix (lit ''-'') (slugify lc s) \<and>
   slugify lc (lit ''?!...'') = []"
proof -
  have "set (slugify lc s) \<subseteq> set (lit ''abcdefghijklmnopqrstuvwxyz0123456789-'')"
    using slugify_chars[OF assms, of _ s] unfolding slug_chars_def by blast
  moreover have "\<not> prefix (lit ''-'') (slugify lc s)"
    using slugify_ends[of lc s] by (auto simp: prefix_def is_hyphen_def lit_def)
  moreover have "\<not> suffix (lit ''-'') (slugify lc s)"
    using slugify_ends[of lc s] by (auto simp: suffix_def is_hyphen_def lit_def)
  moreover have "slugify lc (lit ''?!...'') = []"
  proof -
    have "\<forall>c \<in> set (lit ''?!...''). c < 128" by (simp add: lit_def)
    with assms have "lc (lit ''?!...'') = map ascii_lower (lit ''?!...'')"
      by (simp add: lower_casing_def)
    then show ?thesis
      using punctuation_slug by (simp add: slugify_def)
  qed
  ultimately show ?thesis by simp
qed

theorem slugify_output_shape_witness:
  "lower_casing basic_lower \<and>
   slugify basic_lower wide_title = lit ''my-k-i-page-2'' \<and>
   set (slugify basic_lower wide_title) \<subseteq> set (lit ''abcdefghijklmnopqrstuvwxyz0123456789-'') \<and>
   \<not> prefix (lit ''-'') (slugify basic_lower wide_title) \<and>
   \<not> suffix (lit ''-'') (slugify basic_lower wide_title) \<and>
   slugify basic_lower (lit ''?!...'') = []"
  using slugify_output_shape[OF basic_lower_casing, of wide_title]
  by (simp add: basic_lower_casing wide_title_slug)

section \<open>Properties of the rich-text renderer\<close>

lemma foldl_push: "foldl (\<lambda>parts x. parts @ [f x]) acc xs = acc @ map f xs"
  by (induction xs arbitrary: acc) simp_all

lemma extractRichText_map: "extractRichText richText = concat (map style_span richText)"
  by (simp add: extractRichText_def foldl_push)

lemma style_span_nested: "style_span text = code_outermost text"
  by (simp add: style_span_def code_outermost_def wrap_if_def span_flags_def Let_def)

lemma style_span_fun: "style_span = code_outermost"
  by (rule ext) (rule style_span_nested)

text \<open>
  C1, as stated, fails: the span \<open>x\<close> with the four flags bold, italic, strikethrough
  and code set renders with the backtick as the outermost delimiter and \<open>**\<close> as the
  innermost one, not as the nesting with bold outermost and code innermost.
\<close>

theorem bold_is_not_outermost:
  "extractRichText [all_styles] = lit ''`~~***x***~~`'' \<and>
   bold_outermost all_styles = lit ''***~~`x`~~***'' \<and>
   extractRichText [all_styles] \<noteq> bold_outermost all_styles"
  by (simp add: extractRichText_map style_span_def bold_outermost_def all_styles_def
      wrap_if_def span_flags_def str_or_def lit_def)

text \<open>
  C1, amended. For every span, whatever subset of the flags bold, italic,
  strikethrough and code is set, the renderer wraps the plain text in the fixed
  nesting order code outermost, then strikethrough, then italic, bold innermost; a
  sequence of spans renders as the concatenation of its spans' renderings.
\<close>

theorem rich_text_nesting_code_outermost:
  "extractRichText [text] = code_outermost text \<and>
   extractRichText spans = concat (map code_outermost spans)"
proof -
  have "extractRichText [text] = style_span text"
    by (simp add: extractRichText_map)
  then have one: "extractRichText [text] = code_outermost text"
    by (simp add: style_span_nested)
  have "extractRichText spans = concat (map style_span spans)"
    by (rule extractRichText_map)
  then have many: "extractRichText spans = concat (map code_outermost spans)"
    by (simp add: style_span_fun)
  from one many show ?thesis by (rule conjI)
qed

section \<open>Properties of the block processor\<close>

lemma block_step_append: "block_step content block = content @ block_step [] block"
  by (simp add: block_step_def Let_def)

lemma foldl_block_step:
  "foldl block_step acc blocks = acc @ concat (map (block_step []) blocks)"
proof (induction blocks arbitrary: acc)
  case Nil
  then show ?case by simp
next
  case (Cons b bs)
  have "foldl block_step acc (b # bs) = foldl block_step (block_step acc b) bs" by simp
  also have "\<dots> = block_step acc b @ concat (map (block_step []) bs)" by (rule Cons.IH)
  also have "\<dots> = (acc @ block_step [] b) @ concat (map (block_step []) bs)"
    using block_step_append[of acc b] by simp
  finally show ?case by simp
qed

lemma processBlocks_fragments: "processBlocks blocks = concat (map fragment blocks)"
proof -
  have "concat (concat (map (block_step []) blocks)) = concat (map fragment blocks)"
    by (induction blocks) (simp_all add: fragment_def)
  then show ?thesis by (simp add: processBlocks_def foldl_block_step)
qed

lemma fragment_numbered:
  "block_type b = lit ''numbered_list_item'' \<Longrightarrow>
   fragment b = lit ''1. '' @ data_text (block_data b) @ newline"
  by (simp add: fragment_def block_step_def Let_def)

lemma fragment_unrecognized:
  "block_type b \<notin> set recognized_types \<Longrightarrow> fragment b = []"
  by (simp add: fragment_def block_step_def recognized_types_def Let_def)

lemma fragment_image:
  "block_type b = lit ''image'' \<Longrightarrow>
   fragment b =
     (case resolved_url b of None \<Rightarrow> [] | Some u \<Rightarrow> image_markup (caption_text b) u)"
  by (cases "file_url b"; cases "external_url b")
     (auto simp: fragment_def block_step_def Let_def image_url_def resolved_url_def usable_def
      file_url_def external_url_def caption_text_def image_markup_def str_or_def)

lemma plain_span_text: "extractRichText [plain_span s] = lit s"
  by (simp add: extractRichText_map style_span_def plain_span_def str_or_def
      no_annotations_def lit_def)

lemma text_block_text: "data_text (block_data (text_block tag s)) = lit s"
  by (simp add: data_text_def block_data_def text_block_def empty_data_def list_or_empty_def
      plain_span_text)

text \<open>
  C4. A sequence of numbered-list-item blocks, of any length (so of any length above
  one), renders as the concatenation of its items, each as \<open>1. \<close> followed by the
  item's text and a line break: no item has another ordinal, wherever it stands.
\<close>

theorem numbered_items_render_ordinal_one:
  assumes "list_all (\<lambda>b. block_type b = lit ''numbered_list_item'') blocks"
  shows "processBlocks blocks =
     concat (map (\<lambda>b. lit ''1. '' @ data_text (block_data b) @ newline) blocks)"
proof -
  have "concat (map fragment blocks) =
      concat (map (\<lambda>b. lit ''1. '' @ data_text (block_data b) @ newline) blocks)"
    using assms by (induction blocks) (simp_all add: fragment_numbered)
  then show ?thesis by (simp add: processBlocks_fragments)
qed

theorem numbered_items_render_ordinal_one_witness:
  "list_all (\<lambda>b. block_type b = lit ''numbered_list_item'')
     [text_block ''numbered_list_item'' ''one'', text_block ''numbered_list_item'' ''two'',
      text_block ''numbered_list_item'' ''three''] \<and>
   processBlocks
     [text_block ''numbered_list_item'' ''one'', text_block ''numbered_list_item'' ''two'',
      text_block ''numbered_list_item'' ''three''] =
     lit ''1. one'' @ newline @ lit ''1. two'' @ newline @ lit ''1. three'' @ newline"
proof -
  have h: "list_all (\<lambda>b. block_type b = lit ''numbered_list_item'')
     [text_block ''numbered_list_item'' ''one'', text_block ''numbered_list_item'' ''two'',
      text_block ''numbered_list_item'' ''three'']"
    by (simp add: text_block_def)
  from numbered_items_render_ordinal_one[OF h]
  have r: "processBlocks
     [text_block ''numbered_list_item'' ''one'', text_block ''numbered_list_item'' ''two'',
      text_block ''numbered_list_item'' ''three''] =
     lit ''1. one'' @ newline @ lit ''1. two'' @ newline @ lit ''1. three'' @ newline"
    by (simp add: text_block_text lit_def)
  from h r show ?thesis by (rule conjI)
qed

text \<open>
  C5. A block whose type tag is none of the twelve recognized ones contributes the
  empty string, alone or anywhere in a sequence, and rendering a sequence equals
  rendering it with those blocks removed. The renderer is a total function: no input
  of the model makes it fail.
\<close>

theorem unrecognized_blocks_skipped:
  "processBlocks (filter (\<lambda>b. block_type b \<in> set recognized_types) blocks) =
     processBlocks blocks \<and>
   (block_type b \<notin> set recognized_types \<longrightarrow>
      processBlocks [b] = [] \<and>
      processBlocks (pre @ b # post) = processBlocks (pre @ post))"
proof -
  have "concat (map fragment (filter (\<lambda>b. block_type b \<in> set recognized_types) blocks)) =
        concat (map fragment blocks)"
    by (induction blocks) (simp_all add: fragment_unrecognized)
  then show ?thesis
    by (simp add: processBlocks_fragments fragment_unrecognized)
qed

theorem unrecognized_blocks_skipped_witness:
  "block_type (text_block ''table'' ''t'') \<notin> set recognized_types \<and>
   processBlocks [text_block ''table'' ''t''] = [] \<and>
   processBlocks
     [text_block ''paragraph'' ''a'', text_block ''table'' ''t'',
      text_block ''numbered_list_item'' ''b''] =
   processBlocks [text_block ''paragraph'' ''a'', text_block ''numbered_list_item'' ''b'']"
proof -
  have h: "block_type (text_block ''table'' ''t'') \<notin> set recognized_types"
    by (simp add: text_block_def recognized_types_def)
  from unrecognized_blocks_skipped
    [of "[]" "text_block ''table'' ''t''" "[text_block ''paragraph'' ''a'']"
       "[text_block ''numbered_list_item'' ''b'']"] h
  show ?thesis by simp
qed

text \<open>
  C8. An image block contributes \<open>![caption](url)\<close> followed by a blank line exactly
  when a URL is resolvable: the uploaded file's URL when it is there and not empty,
  otherwise the external URL when that is there and not empty. With neither, it
  contributes the empty string.
\<close>

theorem image_emitted_iff_url:
  assumes "block_type b = lit ''image''"
  shows "processBlocks (pre @ b # post) =
      processBlocks pre @ processBlocks [b] @ processBlocks post \<and>
    processBlocks [b] =
      (case resolved_url b of None \<Rightarrow> [] | Some u \<Rightarrow> image_markup (caption_text b) u) \<and>
    (processBlocks [b] \<noteq> []) = (usable (file_url b) \<or> usable (external_url b)) \<and>
    (usable (file_url b) \<longrightarrow> resolved_url b = file_url b) \<and>
    (\<not> usable (file_url b) \<and> usable (external_url b) \<longrightarrow>
       resolved_url b = external_url b)"
proof -
  have a: "processBlocks (pre @ b # post) =
      processBlocks pre @ processBlocks [b] @ processBlocks post"
    by (simp add: processBlocks_fragments)
  have b: "processBlocks [b] =
      (case resolved_url b of None \<Rightarrow> [] | Some u \<Rightarrow> image_markup (caption_text b) u)"
    using assms by (simp add: processBlocks_fragments fragment_image)
  have c: "(processBlocks [b] \<noteq> []) = (usable (file_url b) \<or> usable (external_url b))"
    unfolding b
    by (auto simp: resolved_url_def usable_def image_markup_def lit_def split: option.splits)
  have d: "usable (file_url b) \<longrightarrow> resolved_url b = file_url b"
    by (simp add: resolved_url_def)
  have e: "\<not> usable (file_url b) \<and> usable (external_url b) \<longrightarrow>
      resolved_url b = external_url b"
    by (simp add: resolved_url_def)
  from a b c d e show ?thesis by blast
qed

lemma image_block_urls:
  "block_type (image_block f e) = lit ''image'' \<and>
   file_url (image_block f e) = map_option lit f \<and>
   external_url (image_block f e) = map_option lit e \<and>
   caption_text (image_block f e) = lit ''logo''"
  by (cases f; cases e)
     (simp_all add: image_block_def file_url_def external_url_def block_data_def
      empty_data_def caption_text_def list_or_empty_def plain_span_text)

theorem image_emitted_iff_url_witness:
  "processBlocks [image_block (Some ''f.png'') (Some ''e.png'')] =
     lit ''![logo](f.png)'' @ newline @ newline \<and>
   processBlocks [image_block (Some []) (Some ''e.png'')] =
     lit ''![logo](e.png)'' @ newline @ newline \<and>
   processBlocks [image_block None None] = []"
proof -
  have "processBlocks [image_block (Some ''f.png'') (Some ''e.png'')] =
      lit ''![logo](f.png)'' @ newline @ newline"
    using image_emitted_iff_url[of "image_block (Some ''f.png'') (Some ''e.png'')" "[]" "[]"]
    by (simp add: image_block_urls resolved_url_def usable_def image_markup_def)
       (simp add: lit_def)
  moreover have "processBlocks [image_block (Some []) (Some ''e.png'')] =
      lit ''![logo](e.png)'' @ newline @ newline"
    using image_emitted_iff_url[of "image_block (Some []) (Some ''e.png'')" "[]" "[]"]
    by (simp add: image_block_urls resolved_url_def usable_def image_markup_def)
       (simp add: lit_def)
  moreover have "processBlocks [image_block None None] = []"
    using image_emitted_iff_url[of "image_block None None" "[]" "[]"]
    by (simp add: image_block_urls resolved_url_def usable_def)
  ultimately show ?thesis by simp
qed

section \<open>Properties of the metadata extractor\<close>

subsection \<open>Titles of pages of the declared shape\<close>

lemma untitled_typed:
  assumes "properties page = None \<or>
     (lit ''Name'' \<notin> fst ` set (page_properties page) \<and>
      lit ''Title'' \<notin> fst ` set (page_properties page))"
  shows "extractTitle page = lit ''Untitled''"
proof -
  have "page_properties page = [] \<or>
     (lit ''Name'' \<notin> fst ` set (page_properties page) \<and>
      lit ''Title'' \<notin> fst ` set (page_properties page))"
    using assms by (auto simp: page_properties_def list_or_empty_def)
  then have "map_of (page_properties page) (lit ''Name'') = None"
       and "map_of (page_properties page) (lit ''Title'') = None"
    by (auto simp: map_of_eq_None_iff)
  then show ?thesis by (simp add: extractTitle_def)
qed

text \<open>
  C9. When the bag has a property named \<open>Name\<close>, the title is that of \<open>Name\<close>
  alone: \<open>Untitled\<close> when \<open>Name\<close> carries no title value, whatever \<open>Title\<close>
  holds. The property \<open>Title\<close> decides only when \<open>Name\<close> is absent.
\<close>

theorem name_without_title_gives_untitled:
  "(map_of (page_properties page) (lit ''Name'') = Some p \<and> title p = None \<longrightarrow>
      extractTitle page = lit ''Untitled'') \<and>
   (map_of (page_properties page) (lit ''Name'') = Some p \<longrightarrow>
      extractTitle page = title_of p) \<and>
   (map_of (page_properties page) (lit ''Name'') = None \<and>
    map_of (page_properties page) (lit ''Title'') = Some q \<longrightarrow>
      extractTitle page = title_of q)"
proof -
  have name: "extractTitle page = title_of p"
    if "map_of (page_properties page) (lit ''Name'') = Some p"
    using that by (simp add: extractTitle_def title_of_def)
  have untitled: "extractTitle page = lit ''Untitled''"
    if "map_of (page_properties page) (lit ''Name'') = Some p" "title p = None"
  proof -
    from that(1) have "extractTitle page = title_of p" by (rule name)
    with that(2) show ?thesis by (simp add: title_of_def)
  qed
  have fallback: "extractTitle page = title_of q"
    if "map_of (page_properties page) (lit ''Name'') = None"
       "map_of (page_properties page) (lit ''Title'') = Some q"
    using that by (simp add: extractTitle_def title_of_def)
  from name untitled fallback show ?thesis by blast
qed

theorem name_without_title_gives_untitled_witness:
  "map_of (page_properties name_without_title_page) (lit ''Name'') = Some text_prop \<and>
   title text_prop = None \<and>
   map_of (page_properties name_without_title_page) (lit ''Title'') =
     Some (title_prop ''Real title'') \<and>
   title_of (title_prop ''Real title'') = lit ''Real title'' \<and>
   extractTitle name_without_title_page = lit ''Untitled''"
proof -
  have n: "map_of (page_properties name_without_title_page) (lit ''Name'') = Some text_prop"
    and t: "map_of (page_properties name_without_title_page) (lit ''Title'') =
      Some (title_prop ''Real title'')"
    by (simp_all add: name_without_title_page_def page_with_def page_properties_def
        list_or_empty_def)
  have e: "title text_prop = None"
    by (simp add: text_prop_def)
  have r: "title_of (title_prop ''Real title'') = lit ''Real title''"
    by (simp add: title_of_def title_prop_def plain_span_def str_or_def lit_def)
  from name_without_title_gives_untitled[of name_without_title_page text_prop] n e
  have "extractTitle name_without_title_page = lit ''Untitled''" by simp
  with n t e r show ?thesis by simp
qed

subsection \<open>Titles of arbitrary JSON values\<close>

lemma page_json_properties:
  "get_prop (page_json page) (lit ''properties'') =
     Inr (case properties page of
            None \<Rightarrow> JUndefined
          | Some bag \<Rightarrow> JObj (map (\<lambda>(k, p). (k, prop_json p)) bag))"
  by (cases "properties page"; cases "created_time page"; cases "last_edited_time page";
      cases "page_url page")
     (simp_all add: page_json_def opt_field_def)

lemma prop_json_truthy: "truthy (prop_json p)"
  by (simp add: prop_json_def)

lemma prop_json_title:
  "get_prop (prop_json p) (lit ''title'') =
     Inr (case title p of None \<Rightarrow> JUndefined | Some parts \<Rightarrow> JArr (map rich_json parts))"
  by (cases "title p"; cases "select p"; cases "multi_select p"; cases "date p")
     (simp_all add: prop_json_def opt_field_def)

lemma title_part_rich: "title_part (rich_json r) = Inr (JStr (str_or (plain_text r) []))"
  by (cases "plain_text r"; cases "annotations r")
     (simp_all add: title_part_def rich_json_def opt_field_def str_or_def)

lemma map_parts_rich:
  "map_parts (map rich_json parts) = Inr (map (\<lambda>r. JStr (str_or (plain_text r) [])) parts)"
  by (induction parts) (simp_all add: title_part_rich)

lemma join_strings: "join_with [] (map JStr ss) = Inr (concat ss)"
  by (induction ss) simp_all

lemma prop_json_text:
  "(case get_prop (prop_json p) (lit ''title'') of
      Inl e \<Rightarrow> Inl e
    | Inr t \<Rightarrow>
        if truthy t then
          (case t of
             JArr parts \<Rightarrow>
               (case map_parts parts of
                  Inl e \<Rightarrow> Inl e
                | Inr titleParts \<Rightarrow> join_with [] titleParts)
           | _ \<Rightarrow> Inl TypeError)
        else Inr (lit ''Untitled'')) = Inr (title_of p)"
proof (cases "title p")
  case None
  then show ?thesis by (simp add: prop_json_title title_of_def)
next
  case (Some parts)
  have "join_with [] (map (\<lambda>r. JStr (str_or (plain_text r) [])) parts) =
      Inr (concat (map (\<lambda>r. str_or (plain_text r) []) parts))"
    using join_strings[of "map (\<lambda>r. str_or (plain_text r) []) parts"] by (simp add: comp_def)
  with Some show ?thesis
    by (simp add: prop_json_title title_of_def map_parts_rich)
qed

lemma extractTitle_refines: "extractTitle_json (page_json page) = Inr (extractTitle page)"
proof -
  let ?bag = "page_properties page"
  let ?ps = "case properties page of
      None \<Rightarrow> JUndefined
    | Some bag \<Rightarrow> JObj (map (\<lambda>(k, p). (k, prop_json p)) bag)"
  have look: "get_prop (if truthy ?ps then ?ps else JObj []) k =
      Inr (case map_of ?bag k of None \<Rightarrow> JUndefined | Some p \<Rightarrow> prop_json p)" for k
    by (cases "properties page")
       (simp_all add: page_properties_def list_or_empty_def map_of_map split: option.splits)
  show ?thesis
  proof (cases "map_of ?bag (lit ''Name'')")
    case (Some p)
    then have "extractTitle page = title_of p"
      by (simp add: extractTitle_def title_of_def)
    moreover have "extractTitle_json (page_json page) = Inr (title_of p)"
      using Some prop_json_text[of p]
      by (simp add: extractTitle_json_def page_json_properties look prop_json_truthy Let_def)
    ultimately show ?thesis by simp
  next
    case None
    show ?thesis
    proof (cases "map_of ?bag (lit ''Title'')")
      case (Some q)
      with None have "extractTitle page = title_of q"
        by (simp add: extractTitle_def title_of_def)
      moreover have "extractTitle_json (page_json page) = Inr (title_of q)"
        using None Some prop_json_text[of q]
        by (simp add: extractTitle_json_def page_json_properties look prop_json_truthy Let_def)
      ultimately show ?thesis by simp
    next
      case none: None
      with None have "extractTitle page = lit ''Untitled''"
        by (simp add: extractTitle_def)
      moreover have "extractTitle_json (page_json page) = Inr (lit ''Untitled'')"
        using None none
        by (simp add: extractTitle_json_def page_json_properties look Let_def)
      ultimately show ?thesis by simp
    qed
  qed
qed

lemma untitled_json:
  assumes "map_of kvs (lit ''properties'') = None \<or>
     (map_of kvs (lit ''properties'') = Some (JObj bag) \<and>
      lit ''Name'' \<notin> fst ` set bag \<and> lit ''Title'' \<notin> fst ` set bag)"
  shows "extractTitle_json (JObj kvs) = Inr (lit ''Untitled'')"
  using assms
proof
  assume "map_of kvs (lit ''properties'') = None"
  then show ?thesis by (simp add: extractTitle_json_def)
next
  assume a: "map_of kvs (lit ''properties'') = Some (JObj bag) \<and>
      lit ''Name'' \<notin> fst ` set bag \<and> lit ''Title'' \<notin> fst ` set bag"
  then have "map_of bag (lit ''Name'') = None" "map_of bag (lit ''Title'') = None"
    by (simp_all add: map_of_eq_None_iff)
  with a show ?thesis by (simp add: extractTitle_json_def)
qed

text \<open>
  C6, as stated, fails: title extraction raises a \<open>TypeError\<close> on the page
  \<^verbatim>\<open>null\<close>, on a page whose \<open>Name\<close> has the number 42 as its title value, and
  on a page whose \<open>Name\<close> has a title list with the span \<^verbatim>\<open>null\<close>.
\<close>

theorem extractTitle_raises_type_error:
  "extractTitle_json JNull = Inl TypeError \<and>
   extractTitle_json number_title_page = Inl TypeError \<and>
   extractTitle_json null_span_page = Inl TypeError"
  by (simp add: extractTitle_json_def number_title_page_def null_span_page_def
      title_part_def)

text \<open>
  C6, amended. Title extraction returns \<open>Untitled\<close> for every page that has no
  property bag, or whose bag has neither a property named \<open>Name\<close> nor one named
  \<open>Title\<close>: for every page of the declared shape, and for every JSON object
  whose \<^verbatim>\<open>properties\<close> field is missing or is such an object. On a page of the
  declared shape, whatever fields of it are absent, title extraction does not fail and
  returns the title that the typed function gives.
\<close>

theorem untitled_without_name_and_title:
  "(properties page = None \<or>
      (lit ''Name'' \<notin> fst ` set (page_properties page) \<and>
       lit ''Title'' \<notin> fst ` set (page_properties page)) \<longrightarrow>
      extractTitle page = lit ''Untitled'') \<and>
   extractTitle_json (page_json page) = Inr (extractTitle page) \<and>
   (map_of kvs (lit ''properties'') = None \<or>
      (map_of kvs (lit ''properties'') = Some (JObj bag) \<and>
       lit ''Name'' \<notin> fst ` set bag \<and> lit ''Title'' \<notin> fst ` set bag) \<longrightarrow>
      extractTitle_json (JObj kvs) = Inr (lit ''Untitled''))"
  using untitled_typed[of page] extractTitle_refines[of page] untitled_json[of kvs bag]
  by blast

theorem untitled_without_name_and_title_witness:
  "extractTitle (page_with None) = lit ''Untitled'' \<and>
   extractTitle (page_with (Some [(lit ''Tags'', select_prop (Some ''news''))])) =
     lit ''Untitled'' \<and>
   extractTitle_json (page_json (page_with None)) = Inr (lit ''Untitled'') \<and>
   extractTitle_json (JObj [(lit ''id'', JStr (lit ''p1''))]) = Inr (lit ''Untitled'') \<and>
   extractTitle_json
     (JObj [(lit ''properties'', JObj [(lit ''Tags'', JObj [(lit ''type'', JStr (lit ''select''))])])]) =
     Inr (lit ''Untitled'')"
proof -
  have a: "extractTitle (page_with None) = lit ''Untitled''"
    using untitled_without_name_and_title[of "page_with None"]
    by (simp add: page_with_def)
  have b: "extractTitle (page_with (Some [(lit ''Tags'', select_prop (Some ''news''))])) =
      lit ''Untitled''"
    using untitled_without_name_and_title
      [of "page_with (Some [(lit ''Tags'', select_prop (Some ''news''))])"]
    by (simp add: page_with_def page_properties_def list_or_empty_def)
  have c: "extractTitle_json (page_json (page_with None)) = Inr (lit ''Untitled'')"
    using untitled_without_name_and_title[of "page_with None"] a by simp
  have d: "extractTitle_json (JObj [(lit ''id'', JStr (lit ''p1''))]) = Inr (lit ''Untitled'')"
    using untitled_without_name_and_title[of _ "[(lit ''id'', JStr (lit ''p1''))]"]
    by simp
  have e: "extractTitle_json
     (JObj [(lit ''properties'', JObj [(lit ''Tags'', JObj [(lit ''type'', JStr (lit ''select''))])])]) =
     Inr (lit ''Untitled'')"
    using untitled_without_name_and_title
      [of _ "[(lit ''properties'', JObj [(lit ''Tags'', JObj [(lit ''type'', JStr (lit ''select''))])])]"
          "[(lit ''Tags'', JObj [(lit ''type'', JStr (lit ''select''))])]"]
    by simp
  from a b c d e show ?thesis by simp
qed

subsection \<open>Metadata\<close>

lemma metadata_step_field:
  "metadata_step lc m (key, p) =
     (case field_value p of None \<Rightarrow> m | Some v \<Rightarrow> assign m (lc key) v)"
  by (cases "select p"; cases "multi_select p"; cases "date p")
     (simp_all add: metadata_step_def field_value_def Let_def)

lemma own_fields_assign:
  "own_fields (assign m k v) =
     (if k = lit ''__proto__'' then own_fields m else (own_fields m)(k \<mapsto> v))"
  by (cases v) (simp_all add: assign_def)

lemma upd_add: "m(k \<mapsto> v) ++ f = m ++ ([k \<mapsto> v] ++ f)"
  by (rule ext) (simp add: map_add_def split: option.splits)

lemma foldl_metadata_step:
  "own_fields (foldl (metadata_step lc) m entries) =
     own_fields m ++ map_of (rev (written_fields lc entries))"
proof (induction entries arbitrary: m)
  case Nil
  then show ?case by simp
next
  case (Cons e entries)
  obtain key p where e: "e = (key, p)" by (cases e)
  show ?case
  proof (cases "field_value p")
    case None
    then have "metadata_step lc m e = m" by (simp add: e metadata_step_field)
    then have "foldl (metadata_step lc) m (e # entries) = foldl (metadata_step lc) m entries"
      by simp
    then have "own_fields (foldl (metadata_step lc) m (e # entries)) =
        own_fields m ++ map_of (rev (written_fields lc entries))"
      by (simp only: Cons.IH)
    then show ?thesis using None by (simp add: e)
  next
    case (Some v)
    then have step: "metadata_step lc m e = assign m (lc key) v"
      by (simp add: e metadata_step_field)
    have "own_fields (foldl (metadata_step lc) m (e # entries)) =
        own_fields (foldl (metadata_step lc) (assign m (lc key) v) entries)"
      by (simp add: step)
    also have "\<dots> = own_fields (assign m (lc key) v) ++ map_of (rev (written_fields lc entries))"
      by (rule Cons.IH)
    finally have a: "own_fields (foldl (metadata_step lc) m (e # entries)) =
        own_fields (assign m (lc key) v) ++ map_of (rev (written_fields lc entries))" .
    show ?thesis
    proof (cases "lc key = lit ''__proto__''")
      case True
      with a Some show ?thesis by (simp add: e own_fields_assign)
    next
      case False
      with a have "own_fields (foldl (metadata_step lc) m (e # entries)) =
          (own_fields m)(lc key \<mapsto> v) ++ map_of (rev (written_fields lc entries))"
        by (simp add: own_fields_assign)
      also have "\<dots> =
          own_fields m ++ ([lc key \<mapsto> v] ++ map_of (rev (written_fields lc entries)))"
        by (rule upd_add)
      also have "\<dots> = own_fields m ++ map_of (rev (written_fields lc (e # entries)))"
        using Some False by (simp add: e)
      finally show ?thesis .
    qed
  qed
qed

lemma extractMetadata_eq:
  "own_fields (extractMetadata lc page) =
     fixed_fields page ++ map_of (rev (written_fields lc (page_properties page)))"
  by (simp add: extractMetadata_def fixed_fields_def foldl_metadata_step)

lemma toLowerCase_neq:
  assumes "lower_casing lc" and "of_char CHR ''T'' \<in> set k"
  shows "lc key \<noteq> k"
proof
  assume "lc key = k"
  with assms(2) have "of_char CHR ''T'' \<in> set (lc key)" by simp
  with assms(1) have "\<not> is_upper (of_char CHR ''T'')" by (rule lower_casing_no_upper)
  then show False by (simp add: is_upper_def lit_def)
qed

lemma written_keys:
  "k \<in> fst ` set (written_fields lc entries) \<Longrightarrow> \<exists>key. k = lc key"
proof (induction entries)
  case Nil
  then show ?case by simp
next
  case (Cons e entries)
  obtain key p where e: "e = (key, p)" by (cases e)
  show ?case
  proof (cases "field_value p")
    case None
    with Cons show ?thesis by (simp add: e)
  next
    case (Some v)
    with Cons.prems have "k = lc key \<or> k \<in> fst ` set (written_fields lc entries)"
      by (simp add: e split: if_splits)
    with Cons.IH show ?thesis by blast
  qed
qed

lemma fixed_kept:
  assumes "lower_casing lc" and "of_char CHR ''T'' \<in> set k"
  shows "own_fields (extractMetadata lc page) k = fixed_fields page k"
proof -
  have "k \<notin> fst ` set (written_fields lc (page_properties page))"
  proof
    assume "k \<in> fst ` set (written_fields lc (page_properties page))"
    then obtain key where "k = lc key" using written_keys by blast
    with toLowerCase_neq[OF assms, of key] show False by simp
  qed
  then have "map_of (rev (written_fields lc (page_properties page))) k = None"
    by (simp add: map_of_eq_None_iff)
  then show ?thesis by (simp add: extractMetadata_eq map_add_def)
qed

lemma created_kept:
  assumes "lower_casing lc"
  shows "own_fields (extractMetadata lc page) (lit ''createdTime'') =
     Some (Str (str_or (created_time page) []))"
proof -
  have "own_fields (extractMetadata lc page) (lit ''createdTime'') =
      fixed_fields page (lit ''createdTime'')"
    using assms by (rule fixed_kept) (simp add: lit_def)
  then show ?thesis by (simp add: fixed_fields_def)
qed

lemma edited_kept:
  assumes "lower_casing lc"
  shows "own_fields (extractMetadata lc page) (lit ''lastEditedTime'') =
     Some (Str (str_or (last_edited_time page) []))"
proof -
  have "own_fields (extractMetadata lc page) (lit ''lastEditedTime'') =
      fixed_fields page (lit ''lastEditedTime'')"
    using assms by (rule fixed_kept) (simp add: lit_def)
  then show ?thesis by (simp add: fixed_fields_def)
qed

lemma written_fields_append:
  "written_fields lc (xs @ ys) = written_fields lc xs @ written_fields lc ys"
proof (induction xs)
  case Nil
  then show ?case by simp
next
  case (Cons e xs)
  obtain key p where e: "e = (key, p)" by (cases e)
  from Cons show ?case by (simp add: e split: option.splits)
qed

lemma url_overwritten:
  assumes bag: "properties page = Some (pre @ (key, p) # post)"
    and key: "lc key = lit ''url''"
    and val: "field_value p = Some v"
    and last: "lit ''url'' \<notin> fst ` set (written_fields lc post)"
  shows "own_fields (extractMetadata lc page) (lit ''url'') = Some v"
proof -
  have "written_fields lc (page_properties page) =
      written_fields lc pre @ (lit ''url'', v) # written_fields lc post"
    using bag key val
    by (simp add: page_properties_def list_or_empty_def written_fields_append)
  then have "map_of (rev (written_fields lc (page_properties page))) (lit ''url'') =
      (map_of ((lit ''url'', v) # rev (written_fields lc pre)) ++
       map_of (rev (written_fields lc post))) (lit ''url'')"
    by simp
  also have "\<dots> = Some v"
  proof -
    have "map_of (rev (written_fields lc post)) (lit ''url'') = None"
      using last by (simp add: map_of_eq_None_iff)
    then show ?thesis by (simp add: map_add_def)
  qed
  finally show ?thesis by (simp add: extractMetadata_eq map_add_def)
qed

lemma ascii_spellings:
  assumes "lower_casing lc"
  shows "lc (lit ''Url'') = lit ''url'' \<and> lc (lit ''URL'') = lit ''url''"
proof -
  have "\<forall>c \<in> set (lit ''Url''). c < 128" "\<forall>c \<in> set (lit ''URL''). c < 128"
    by (simp_all add: lit_def)
  with assms have "lc (lit ''Url'') = map ascii_lower (lit ''Url'')"
    and "lc (lit ''URL'') = map ascii_lower (lit ''URL'')"
    by (simp_all add: lower_casing_def)
  then show ?thesis by (simp add: ascii_lower_def is_upper_def lit_def)
qed

lemma clash_written:
  "written_fields basic_lower (page_properties clash_page) =
     [(lit ''tag'', Str (lit ''first'')), (lit ''tag'', Str (lit ''second'')),
      (lit ''url'', Str (lit ''draft''))]"
  by (simp add: clash_page_def page_with_def page_properties_def list_or_empty_def
      field_value_def select_prop_def str_or_def basic_lower_def lower_unit_def lit_def)

text \<open>
  C7, as stated, fails on the page \<open>clash_page\<close>: its select property \<open>Status\<close>
  with no option chosen leaves no field \<open>status\<close>; of its select properties \<open>Tag\<close>
  and \<open>tag\<close> the field \<open>tag\<close> holds the value of the second only; the field
  \<open>url\<close> holds the value of its select property \<open>Url\<close>, not the page's URL; and
  its select property \<open>__proto__\<close> leaves no field of that name.
\<close>

theorem metadata_field_missing_or_replaced:
  "own_fields (extractMetadata basic_lower clash_page) (lit ''status'') = None \<and>
   own_fields (extractMetadata basic_lower clash_page) (lit ''tag'') =
     Some (Str (lit ''second'')) \<and>
   own_fields (extractMetadata basic_lower clash_page) (lit ''url'') =
     Some (Str (lit ''draft'')) \<and>
   own_fields (extractMetadata basic_lower clash_page) (lit ''__proto__'') = None \<and>
   page_url clash_page = Some (lit ''https://www.notion.so/p1'')"
  by (simp add: extractMetadata_eq clash_written fixed_fields_def map_add_def)
     (simp add: clash_page_def page_with_def)

text \<open>
  C7, amended. The own fields of the metadata record are the three fixed fields,
  overridden by the fields the bag writes: in the order of the bag, every entry of
  declared type select, multi-select or date whose payload of that name is present
  writes, under the lower-cased property name, its value (the option's name, the list
  of the options' names, the start date), a later write replacing an earlier one
  under the same key; an entry of another declared type, or with its payload absent,
  or whose lower-cased name is \<open>__proto__\<close>, writes no field. The fields
  \<open>createdTime\<close> and \<open>lastEditedTime\<close> always hold the page-level values, the
  empty string when missing.
\<close>

theorem extractMetadata_fields:
  assumes "lower_casing lc"
  shows "own_fields (extractMetadata lc page) =
     fixed_fields page ++ map_of (rev (written_fields lc (page_properties page))) \<and>
   own_fields (extractMetadata lc page) (lit ''createdTime'') =
     Some (Str (str_or (created_time page) [])) \<and>
   own_fields (extractMetadata lc page) (lit ''lastEditedTime'') =
     Some (Str (str_or (last_edited_time page) []))"
  using extractMetadata_eq created_kept[OF assms] edited_kept[OF assms] by blast

theorem extractMetadata_fields_witness:
  "lower_casing basic_lower \<and>
   own_fields (extractMetadata basic_lower clash_page) =
     fixed_fields clash_page ++
     map_of [(lit ''url'', Str (lit ''draft'')), (lit ''tag'', Str (lit ''second'')),
             (lit ''tag'', Str (lit ''first''))] \<and>
   own_fields (extractMetadata basic_lower clash_page) (lit ''createdTime'') =
     Some (Str (lit ''2025-01-01T00:00:00.000Z'')) \<and>
   own_fields (extractMetadata basic_lower clash_page) (lit ''lastEditedTime'') =
     Some (Str (lit ''2025-01-02T00:00:00.000Z''))"
proof -
  have t: "created_time clash_page = Some (lit ''2025-01-01T00:00:00.000Z'')"
    "last_edited_time clash_page = Some (lit ''2025-01-02T00:00:00.000Z'')"
    by (simp_all add: clash_page_def page_with_def)
  from extractMetadata_fields[OF basic_lower_casing, of clash_page]
  have e: "own_fields (extractMetadata basic_lower clash_page) =
      fixed_fields clash_page ++
      map_of (rev (written_fields basic_lower (page_properties clash_page)))"
    and c: "own_fields (extractMetadata basic_lower clash_page) (lit ''createdTime'') =
      Some (Str (str_or (created_time clash_page) []))"
    and l: "own_fields (extractMetadata basic_lower clash_page) (lit ''lastEditedTime'') =
      Some (Str (str_or (last_edited_time clash_page) []))"
    by blast+
  from e have e': "own_fields (extractMetadata basic_lower clash_page) =
      fixed_fields clash_page ++
      map_of [(lit ''url'', Str (lit ''draft'')), (lit ''tag'', Str (lit ''second'')),
              (lit ''tag'', Str (lit ''first''))]"
    by (simp only: clash_written) simp
  from c have c': "own_fields (extractMetadata basic_lower clash_page) (lit ''createdTime'') =
      Some (Str (lit ''2025-01-01T00:00:00.000Z''))"
    by (simp add: t str_or_def lit_def)
  from l have l': "own_fields (extractMetadata basic_lower clash_page) (lit ''lastEditedTime'') =
      Some (Str (lit ''2025-01-02T00:00:00.000Z''))"
    by (simp add: t str_or_def lit_def)
  from basic_lower_casing e' c' l' show ?thesis by blast
qed

text \<open>
  C10. An entry of declared type select, multi-select or date whose name lower-cases
  to \<open>url\<close> (such as \<open>Url\<close> or \<open>URL\<close>) overwrites the field \<open>url\<close>: the
  field holds the value of the last such entry, not the page's URL. The fields
  \<open>createdTime\<close> and \<open>lastEditedTime\<close> hold the page-level values on every
  page, since no lower-cased key equals either name.
\<close>

theorem url_field_overwritable_times_fixed:
  assumes "lower_casing lc"
  shows "(properties page = Some (pre @ (key, p) # post) \<and> lc key = lit ''url'' \<and>
      field_value p = Some v \<and> lit ''url'' \<notin> fst ` set (written_fields lc post) \<longrightarrow>
      own_fields (extractMetadata lc page) (lit ''url'') = Some v) \<and>
   lc (lit ''Url'') = lit ''url'' \<and> lc (lit ''URL'') = lit ''url'' \<and>
   own_fields (extractMetadata lc page) (lit ''createdTime'') =
     Some (Str (str_or (created_time page) [])) \<and>
   own_fields (extractMetadata lc page) (lit ''lastEditedTime'') =
     Some (Str (str_or (last_edited_time page) [])) \<and>
   lc k \<noteq> lit ''createdTime'' \<and> lc k \<noteq> lit ''lastEditedTime''"
proof -
  have "lc k \<noteq> lit ''createdTime''"
    using assms by (rule toLowerCase_neq) (simp add: lit_def)
  moreover have "lc k \<noteq> lit ''lastEditedTime''"
    using assms by (rule toLowerCase_neq) (simp add: lit_def)
  ultimately show ?thesis
    using url_overwritten[of page pre key p post lc v] ascii_spellings[OF assms]
      created_kept[OF assms, of page] edited_kept[OF assms, of page]
    by blast
qed

theorem url_field_overwritable_times_fixed_witness:
  "lower_casing basic_lower \<and>
   page_url url_select_page = Some (lit ''https://www.notion.so/p1'') \<and>
   own_fields (extractMetadata basic_lower url_select_page) (lit ''url'') =
     Some (Str (lit ''draft'')) \<and>
   page_url url_tags_page = Some (lit ''https://www.notion.so/p1'') \<and>
   own_fields (extractMetadata basic_lower url_tags_page) (lit ''url'') =
     Some (StrList [lit ''a'', lit ''b'']) \<and>
   own_fields (extractMetadata basic_lower url_select_page) (lit ''createdTime'') =
     Some (Str (lit ''2025-01-01T00:00:00.000Z''))"
proof -
  note inst = url_field_overwritable_times_fixed[OF basic_lower_casing]
  have s: "properties url_select_page = Some ([] @ (lit ''Url'', select_prop (Some ''draft'')) # [])"
    and ps: "page_url url_select_page = Some (lit ''https://www.notion.so/p1'')"
    and cs: "created_time url_select_page = Some (lit ''2025-01-01T00:00:00.000Z'')"
    by (simp_all add: url_select_page_def page_with_def)
  have t: "properties url_tags_page = Some ([] @ (lit ''URL'', tags_prop [''a'', ''b'']) # [])"
    and pt: "page_url url_tags_page = Some (lit ''https://www.notion.so/p1'')"
    by (simp_all add: url_tags_page_def page_with_def)
  have fs: "field_value (select_prop (Some ''draft'')) = Some (Str (lit ''draft''))"
    by (simp add: field_value_def select_prop_def str_or_def lit_def)
  have ft: "field_value (tags_prop [''a'', ''b'']) = Some (StrList [lit ''a'', lit ''b''])"
    by (simp add: field_value_def tags_prop_def str_or_def lit_def)
  have a: "own_fields (extractMetadata basic_lower url_select_page) (lit ''url'') =
      Some (Str (lit ''draft''))"
    using inst[of url_select_page "[]" "lit ''Url''" "select_prop (Some ''draft'')" "[]"
        "Str (lit ''draft'')"] s fs
    by simp
  have b: "own_fields (extractMetadata basic_lower url_tags_page) (lit ''url'') =
      Some (StrList [lit ''a'', lit ''b''])"
    using inst[of url_tags_page "[]" "lit ''URL''" "tags_prop [''a'', ''b'']" "[]"
        "StrList [lit ''a'', lit ''b'']"] t ft
    by simp
  have c: "own_fields (extractMetadata basic_lower url_select_page) (lit ''createdTime'') =
      Some (Str (lit ''2025-01-01T00:00:00.000Z''))"
    using inst[of url_select_page] cs by (simp add: str_or_def lit_def)
  from basic_lower_casing ps a pt b c show ?thesis by simp
qed

end
